theory Spec2Isabelle
  imports Main "HOL-Library.Sublist"
begin

section \<open>JavaScript values and strings\<close>

text \<open>
  The two server routes read a JSON request body and answer with a JSON body and an HTTP
  status. JSON values are modelled as a datatype; an object is an association list in the
  order in which the source writes its fields. The JavaScript value \<open>undefined\<close> (a
  property that is absent) is \<open>None\<close> of \<open>json option\<close>.

  Strings are \<open>string\<close>, read as sequences of code units below 256 (Latin-1). The
  integer columns of the table hold 32-bit values, on which JavaScript's number
  arithmetic is exact, so numbers are \<open>int\<close>.
\<close>

datatype json =
    JNull
  | JBool bool
  | JNum int
  | JStr string
  | JArr "json list"
  | JObj "(string \<times> json) list"

text \<open>Reading a property of a parsed JSON value that is not \<open>null\<close>. For an object,
  \<open>JSON.parse\<close> keeps the last of several equal keys; every other value has none of
  the properties the routes read.\<close>

fun property :: "json \<Rightarrow> string \<Rightarrow> json option" where
  "property (JObj kvs) k = map_of (rev kvs) k"
| "property _ k = None"

text \<open>\<open>!v\<close> is \<open>\<not> truthy v\<close>.\<close>

fun truthy :: "json option \<Rightarrow> bool" where
  "truthy None = False"
| "truthy (Some JNull) = False"
| "truthy (Some (JBool b)) = b"
| "truthy (Some (JNum n)) = (n \<noteq> 0)"
| "truthy (Some (JStr s)) = (s \<noteq> [])"
| "truthy (Some (JArr _)) = True"
| "truthy (Some (JObj _)) = True"

fun typeof :: "json option \<Rightarrow> string" where
  "typeof None = ''undefined''"
| "typeof (Some JNull) = ''object''"
| "typeof (Some (JBool _)) = ''boolean''"
| "typeof (Some (JNum _)) = ''number''"
| "typeof (Some (JStr _)) = ''string''"
| "typeof (Some (JArr _)) = ''object''"
| "typeof (Some (JObj _)) = ''object''"

text \<open>The characters of a value already known to be a string. The routes only read it
  behind the test \<open>typeof v !== 'string'\<close>, so the last equation is never reached.\<close>

fun str :: "json option \<Rightarrow> string" where
  "str (Some (JStr s)) = s"
| "str _ = []"

text \<open>\<open>String.prototype.trim\<close>: white space and line terminators are removed from both
  ends. Below 256 these are TAB, LF, VT, FF, CR, SPACE and NBSP.\<close>

definition is_white_space :: "char \<Rightarrow> bool" where
  "is_white_space c = ((of_char c :: nat) \<in> {9, 10, 11, 12, 13, 32, 160})"

definition trim :: "string \<Rightarrow> string" where
  "trim s = rev (dropWhile is_white_space (rev (dropWhile is_white_space s)))"

text \<open>\<open>String.prototype.toLowerCase\<close> on code units below 256: A to Z and the
  Latin-1 capitals (0xC0 to 0xDE without the multiplication sign 0xD7) move up by 32.\<close>

definition is_upper :: "char \<Rightarrow> bool" where
  "is_upper c = (let n = (of_char c :: nat) in
     (65 \<le> n \<and> n \<le> 90) \<or> (192 \<le> n \<and> n \<le> 222 \<and> n \<noteq> 215))"

definition lower_char :: "char \<Rightarrow> char" where
  "lower_char c = (if is_upper c then char_of ((of_char c :: nat) + 32) else c)"

definition toLowerCase :: "string \<Rightarrow> string" where
  "toLowerCase s = map lower_char s"

text \<open>\<open>s.includes(t)\<close>: \<open>t\<close> occurs in \<open>s\<close> as a contiguous run.\<close>

fun includes_str :: "string \<Rightarrow> string \<Rightarrow> bool" where
  "includes_str [] t = (t = [])"
| "includes_str (c # cs) t = (prefix t (c # cs) \<or> includes_str cs t)"

text \<open>\<open>s.substring(a, b)\<close> for non-negative indices: both are clamped to the length
  and swapped when out of order.\<close>

definition substring :: "string \<Rightarrow> nat \<Rightarrow> nat \<Rightarrow> string" where
  "substring s a b =
     (let a' = min a (length s); b' = min b (length s);
          lo = min a' b'; hi = max a' b'
      in take (hi - lo) (drop lo s))"

section \<open>The key store\<close>

text \<open>
  The table \<open>api_keys\<close> of the schema. \<open>id\<close>, \<open>name\<close>, \<open>key_value\<close> and the two
  timestamps are \<open>NOT NULL\<close>; \<open>status\<close>, \<open>usage_count\<close> and \<open>usage_limit\<close> only
  have defaults and may hold \<open>NULL\<close> (\<open>None\<close>). A store is the list of its rows.
\<close>

type_synonym timestamp = string

record api_key_row =
  row_id :: string
  name :: string
  key_value :: string
  status :: "string option"
  usage_count :: "int option"
  usage_limit :: "int option"
  created_at :: timestamp
  updated_at :: timestamp

type_synonym store = "api_key_row list"

text \<open>
  What a request cannot see in the store: whether a database call fails and with which
  error code, and the clocks. \<open>summary_clock\<close> and \<open>update_clock\<close> are the two
  readings of \<open>new Date().toISOString()\<close> in the summarizer route, \<open>db_clock\<close> is
  \<open>NOW()\<close> inside the database when the update runs.
\<close>

record env =
  select_error :: "string option"
  update_error :: "string option"
  summary_clock :: timestamp
  update_clock :: timestamp
  db_clock :: timestamp

datatype 'a db_result = Data 'a | Error string

text \<open>The rows the query \<open>.eq('key_value', k).eq('status', 'active')\<close> selects.\<close>

definition active_rows :: "store \<Rightarrow> string \<Rightarrow> api_key_row list" where
  "active_rows s k = filter (\<lambda>r. key_value r = k \<and> status r = Some ''active'') s"

text \<open>\<open>.single()\<close>: exactly one row is the data; none or several is the error
  \<open>PGRST116\<close>. A query only reads the store.\<close>

definition select_single :: "env \<Rightarrow> store \<Rightarrow> string \<Rightarrow> api_key_row db_result" where
  "select_single env s k =
     (case select_error env of
        Some code \<Rightarrow> Error code
      | None \<Rightarrow>
          (case active_rows s k of
             [r] \<Rightarrow> Data r
           | _ \<Rightarrow> Error ''PGRST116''))"

text \<open>The trigger \<open>update_api_keys_updated_at\<close>: before a row is updated its
  \<open>updated_at\<close> becomes the database's \<open>NOW()\<close>.\<close>

definition update_updated_at_column :: "env \<Rightarrow> api_key_row \<Rightarrow> api_key_row" where
  "update_updated_at_column env new = new\<lparr>updated_at := db_clock env\<rparr>"

text \<open>\<open>.update({usage_count: n, updated_at: t}).eq('id', i)\<close>: every row with that
  id takes the two values, then the trigger runs on it. A failing update changes nothing.\<close>

definition update_usage :: "env \<Rightarrow> store \<Rightarrow> string \<Rightarrow> int \<Rightarrow> timestamp \<Rightarrow> string option \<times> store" where
  "update_usage env s i n t =
     (case update_error env of
        Some code \<Rightarrow> (Some code, s)
      | None \<Rightarrow>
          (None, map (\<lambda>r. if row_id r = i
                           then update_updated_at_column env (r\<lparr>usage_count := Some n, updated_at := t\<rparr>)
                           else r) s))"

section \<open>Responses and effects\<close>

record response =
  http_status :: nat
  body :: json

text \<open>What a handler did besides answering: the database calls it made, the gated
  action, and the lines it wrote with \<open>console.error\<close>.\<close>

datatype effect =
    Select
  | Update string int
  | Summarize
  | ConsoleError string

record outcome =
  reply :: response
  store_after :: store
  effects :: "effect list"

text \<open>A request is the result of \<open>request.json()\<close>: \<open>None\<close> when the body is not
  JSON and the promise rejects.\<close>

type_synonym request = "json option"

definition json_response :: "json \<Rightarrow> nat \<Rightarrow> response" where
  "json_response b st = \<lparr>http_status = st, body = b\<rparr>"

definition opt_str :: "string option \<Rightarrow> json" where
  "opt_str v = (case v of None \<Rightarrow> JNull | Some s \<Rightarrow> JStr s)"

definition opt_num :: "int option \<Rightarrow> json" where
  "opt_num v = (case v of None \<Rightarrow> JNull | Some n \<Rightarrow> JNum n)"

section \<open>The validator: \<open>POST /api/validate-key\<close>\<close>

definition validate_error :: "string \<Rightarrow> nat \<Rightarrow> response" where
  "validate_error msg st =
     json_response (JObj [(''valid'', JBool False), (''error'', JStr msg)]) st"

text \<open>The \<open>catch\<close> block of the route (STEP 7).\<close>

definition validate_caught :: "store \<Rightarrow> effect list \<Rightarrow> outcome" where
  "validate_caught s es =
     \<lparr>reply = validate_error ''Internal server error'' 500,
      store_after = s,
      effects = es @ [ConsoleError ''API validation error:'']\<rparr>"

text \<open>STEP 6 of the route: the payload names seven columns, and not \<open>key_value\<close>.\<close>

definition validate_data :: "api_key_row \<Rightarrow> json" where
  "validate_data d = JObj
     [(''id'', JStr (row_id d)),
      (''name'', JStr (name d)),
      (''status'', opt_str (status d)),
      (''usage_count'', opt_num (usage_count d)),
      (''usage_limit'', opt_num (usage_limit d)),
      (''created_at'', JStr (created_at d)),
      (''updated_at'', JStr (updated_at d))]"

definition validate_key_POST :: "env \<Rightarrow> store \<Rightarrow> request \<Rightarrow> outcome" where
  "validate_key_POST env s request =
     (case request of
        None \<Rightarrow> validate_caught s []
      | Some JNull \<Rightarrow> validate_caught s []
      | Some b \<Rightarrow>
          let apiKey = property b ''apiKey'' in
          if \<not> truthy apiKey \<or> typeof apiKey \<noteq> ''string'' then
            \<lparr>reply = validate_error ''API key is required and must be a string'' 400,
             store_after = s, effects = []\<rparr>
          else
            let trimmedApiKey = trim (str apiKey) in
            if trimmedApiKey = [] then
              \<lparr>reply = validate_error ''API key cannot be empty'' 400,
               store_after = s, effects = []\<rparr>
            else
              (case select_single env s trimmedApiKey of
                 Error code \<Rightarrow>
                   if code = ''PGRST116'' then
                     \<lparr>reply = validate_error ''Invalid API key'' 404,
                      store_after = s, effects = [Select]\<rparr>
                   else
                     \<lparr>reply = validate_error ''Database error occurred'' 500,
                      store_after = s,
                      effects = [Select, ConsoleError ''Database error:'']\<rparr>
               | Data d \<Rightarrow>
                   \<lparr>reply = json_response
                       (JObj [(''valid'', JBool True), (''data'', validate_data d)]) 200,
                    store_after = s, effects = [Select]\<rparr>))"

section \<open>The gateway: \<open>POST /api/github-summarizer\<close>\<close>

definition summarizer_error :: "string \<Rightarrow> nat \<Rightarrow> response" where
  "summarizer_error msg st =
     json_response (JObj [(''success'', JBool False), (''error'', JStr msg)]) st"

text \<open>The \<open>catch\<close> block of the route (STEP 12).\<close>

definition summarizer_caught :: "store \<Rightarrow> effect list \<Rightarrow> outcome" where
  "summarizer_caught s es =
     \<lparr>reply = summarizer_error ''Internal server error'' 500,
      store_after = s,
      effects = es @ [ConsoleError ''GitHub summarizer error:'']\<rparr>"

text \<open>The character class \<open>[\w\-._]\<close> of the URL pattern; \<open>\w\<close> is
  \<open>[A-Za-z0-9_]\<close>.\<close>

definition url_char :: "char \<Rightarrow> bool" where
  "url_char c = (let n = (of_char c :: nat) in
     (65 \<le> n \<and> n \<le> 90) \<or> (97 \<le> n \<and> n \<le> 122) \<or> (48 \<le> n \<and> n \<le> 57)
     \<or> c = CHR ''_'' \<or> c = CHR ''-'' \<or> c = CHR ''.'')"

text \<open>\<open>githubUrlPattern.test(u)\<close> for
  \<open>/^https:\/\/github\.com\/[\w\-._]+\/[\w\-._]+/\<close>. The pattern is anchored at the
  start only. The class does not hold the slash, so the first run of class characters is
  the longest one, a slash follows it, and one class character follows the slash.\<close>

definition githubUrlPattern_test :: "string \<Rightarrow> bool" where
  "githubUrlPattern_test u =
     (let p = ''https://github.com/'' in
      if take (length p) u \<noteq> p then False
      else
        let rest = drop (length p) u;
            owner = takeWhile url_char rest
        in owner \<noteq> [] \<and>
           (case dropWhile url_char rest of
              c # d # _ \<Rightarrow> c = CHR ''/'' \<and> url_char d
            | _ \<Rightarrow> False))"

text \<open>\<open>null\<close> counts as 0 in \<open>>=\<close> and in \<open>+\<close>.\<close>

definition to_number :: "int option \<Rightarrow> int" where
  "to_number v = (case v of None \<Rightarrow> 0 | Some n \<Rightarrow> n)"

text \<open>STEP 7: \<open>usage_limit && usage_count >= usage_limit\<close>. A limit that is
  \<open>null\<close> or 0 is falsy and ends the test.\<close>

definition limit_exceeded :: "api_key_row \<Rightarrow> bool" where
  "limit_exceeded apiKeyData =
     (case usage_limit apiKeyData of
        None \<Rightarrow> False
      | Some l \<Rightarrow> l \<noteq> 0 \<and> to_number (usage_count apiKeyData) \<ge> l)"

text \<open>STEPS 1 to 6: either the route answers at once, or it goes on with the row the
  query returned and the trimmed URL.\<close>

definition summarizer_validate :: "env \<Rightarrow> store \<Rightarrow> request \<Rightarrow> outcome + api_key_row \<times> string" where
  "summarizer_validate env s request =
     (case request of
        None \<Rightarrow> Inl (summarizer_caught s [])
      | Some JNull \<Rightarrow> Inl (summarizer_caught s [])
      | Some b \<Rightarrow>
          let apiKey = property b ''apiKey'';
              githubUrl = property b ''githubUrl'' in
          if \<not> truthy apiKey \<or> typeof apiKey \<noteq> ''string'' then
            Inl \<lparr>reply = summarizer_error ''API key is required and must be a string'' 400,
                 store_after = s, effects = []\<rparr>
          else if \<not> truthy githubUrl \<or> typeof githubUrl \<noteq> ''string'' then
            Inl \<lparr>reply = summarizer_error ''GitHub URL is required and must be a string'' 400,
                 store_after = s, effects = []\<rparr>
          else
            let trimmedApiKey = trim (str apiKey);
                trimmedGithubUrl = trim (str githubUrl) in
            if trimmedApiKey = [] then
              Inl \<lparr>reply = summarizer_error ''API key cannot be empty'' 400,
                   store_after = s, effects = []\<rparr>
            else if trimmedGithubUrl = [] then
              Inl \<lparr>reply = summarizer_error ''GitHub URL cannot be empty'' 400,
                   store_after = s, effects = []\<rparr>
            else
              (case select_single env s trimmedApiKey of
                 Error code \<Rightarrow>
                   if code = ''PGRST116'' then
                     Inl \<lparr>reply = summarizer_error ''Invalid API key'' 401,
                          store_after = s, effects = [Select]\<rparr>
                   else
                     Inl \<lparr>reply = summarizer_error ''Database error occurred'' 500,
                          store_after = s,
                          effects = [Select, ConsoleError ''Database error:'']\<rparr>
               | Data apiKeyData \<Rightarrow> Inr (apiKeyData, trimmedGithubUrl)))"

text \<open>What the handler holds while it waits for the update of STEP 10.\<close>

record pending =
  apiKeyData :: api_key_row
  summary :: json

text \<open>STEPS 7 to 9, up to the point where the update is sent.\<close>

definition summarizer_prepare :: "env \<Rightarrow> store \<Rightarrow> request \<Rightarrow> outcome + pending" where
  "summarizer_prepare env s request =
     (case summarizer_validate env s request of
        Inl out \<Rightarrow> Inl out
      | Inr (d, trimmedGithubUrl) \<Rightarrow>
          if limit_exceeded d then
            Inl \<lparr>reply = summarizer_error ''API key usage limit exceeded'' 429,
                 store_after = s, effects = [Select]\<rparr>
          else if \<not> githubUrlPattern_test trimmedGithubUrl then
            Inl \<lparr>reply = summarizer_error
                   ''Invalid GitHub URL format. Must be a valid GitHub repository URL.'' 400,
                 store_after = s, effects = [Select]\<rparr>
          else
            Inr \<lparr>apiKeyData = d,
                 summary = JObj
                   [(''repository'', JStr trimmedGithubUrl),
                    (''summary'', JStr ''This is a placeholder summary. Actual GitHub summarization logic would be implemented here.''),
                    (''timestamp'', JStr (summary_clock env)),
                    (''processed_by'', JStr (name d))]\<rparr>)"

text \<open>STEPS 10 and 11: the update is sent with the count read in STEP 5 plus one; an
  error of the update is logged and the route answers all the same.\<close>

definition summarizer_commit :: "env \<Rightarrow> store \<Rightarrow> pending \<Rightarrow> outcome" where
  "summarizer_commit env s p =
     (let d = apiKeyData p;
          n = to_number (usage_count d) + 1;
          (updateError, s') = update_usage env s (row_id d) n (update_clock env)
      in \<lparr>reply = json_response
             (JObj [(''success'', JBool True),
                    (''data'', summary p),
                    (''usage'', JObj [(''current'', JNum n),
                                      (''limit'', opt_num (usage_limit d))])]) 200,
          store_after = s',
          effects = [Select, Summarize, Update (row_id d) n] @
            (case updateError of
               None \<Rightarrow> []
             | Some code \<Rightarrow> [ConsoleError ''Failed to update usage count:''])\<rparr>)"

definition github_summarizer_POST :: "env \<Rightarrow> store \<Rightarrow> request \<Rightarrow> outcome" where
  "github_summarizer_POST env s request =
     (case summarizer_prepare env s request of
        Inl out \<Rightarrow> out
      | Inr p \<Rightarrow> summarizer_commit env s p)"

subsection \<open>Two requests in flight\<close>

text \<open>
  The route is an \<open>async\<close> function: it runs without interruption between two
  \<open>await\<close>s and may be suspended at each. It touches the store twice, in the query of
  STEP 5 and in the update of STEP 10, so a handler is in one of three states, and a
  step of a handler is the code up to its next database call together with that call.
\<close>

datatype handler = Ready request | Awaiting pending | Replied response

definition handler_step :: "env \<Rightarrow> store \<Rightarrow> handler \<Rightarrow> handler \<times> store" where
  "handler_step env s h =
     (case h of
        Ready request \<Rightarrow>
          (case summarizer_prepare env s request of
             Inl out \<Rightarrow> (Replied (reply out), store_after out)
           | Inr p \<Rightarrow> (Awaiting p, s))
      | Awaiting p \<Rightarrow>
          (let out = summarizer_commit env s p in (Replied (reply out), store_after out))
      | Replied r \<Rightarrow> (Replied r, s))"

text \<open>A schedule says which of two handlers moves next: \<open>False\<close> the first,
  \<open>True\<close> the second.\<close>

fun run_two :: "env \<Rightarrow> env \<Rightarrow> bool list \<Rightarrow> store \<times> handler \<times> handler \<Rightarrow> store \<times> handler \<times> handler" where
  "run_two e1 e2 [] st = st"
| "run_two e1 e2 (False # sched) (s, h1, h2) =
     (let (h1', s') = handler_step e1 s h1 in run_two e1 e2 sched (s', h1', h2))"
| "run_two e1 e2 (True # sched) (s, h1, h2) =
     (let (h2', s') = handler_step e2 s h2 in run_two e1 e2 sched (s', h1, h2'))"

section \<open>The key generator\<close>

text \<open>
  \<open>generateApiKey\<close> reads \<open>Math.random().toString(36)\<close> twice. The two strings
  it gets are the arguments \<open>rnd1\<close> and \<open>rnd2\<close>: the number 0.5 gives
  \<open>''0.i''\<close>, the number 0 gives \<open>''0''\<close>.
\<close>

definition key_prefix :: "string \<Rightarrow> string" where
  "key_prefix name' = (if includes_str (toLowerCase name') ''prod'' then ''pk_live_'' else ''pk_dev_'')"

definition randomKey :: "string \<Rightarrow> string \<Rightarrow> string" where
  "randomKey rnd1 rnd2 = substring rnd1 2 18 @ substring rnd2 2 18"

definition generateApiKey :: "string \<Rightarrow> string \<Rightarrow> string \<Rightarrow> string" where
  "generateApiKey name' rnd1 rnd2 = key_prefix name' @ randomKey rnd1 rnd2"

text \<open>The spec's words for the choice of prefix: the name contains "prod" in any
  casing, that is, four consecutive characters that are p or P, r or R, o or O, d or D.\<close>

fun contains_prod_any_casing :: "string \<Rightarrow> bool" where
  "contains_prod_any_casing (a # b # c # d # rest) =
     ((a \<in> {CHR ''p'', CHR ''P''} \<and> b \<in> {CHR ''r'', CHR ''R''} \<and>
       c \<in> {CHR ''o'', CHR ''O''} \<and> d \<in> {CHR ''d'', CHR ''D''})
      \<or> contains_prod_any_casing (b # c # d # rest))"
| "contains_prod_any_casing _ = False"

section \<open>Reading results\<close>

text \<open>The field names of a JSON object, in order.\<close>

fun field_names :: "json \<Rightarrow> string list" where
  "field_names (JObj kvs) = map fst kvs"
| "field_names _ = []"

text \<open>The HTTP status a handler has answered with, if it has answered.\<close>

fun handler_status :: "handler \<Rightarrow> nat option" where
  "handler_status (Replied r) = Some (http_status r)"
| "handler_status _ = None"

section \<open>Sample data\<close>

definition sample_row :: api_key_row where
  "sample_row =
     \<lparr>row_id = ''7f3a'', name = ''Production Key'', key_value = ''pk_live_abc'',
      status = Some ''active'', usage_count = Some 0, usage_limit = Some 1,
      created_at = ''2024-01-01T00:00:00Z'', updated_at = ''2024-01-01T00:00:00Z''\<rparr>"

definition sample_env :: env where
  "sample_env =
     \<lparr>select_error = None, update_error = None,
      summary_clock = ''2024-02-01T10:00:00.000Z'',
      update_clock = ''2024-02-01T10:00:00.001Z'',
      db_clock = ''2024-02-01T10:00:00.002Z''\<rparr>"

definition sample_request :: "string \<Rightarrow> string \<Rightarrow> request" where
  "sample_request k u = Some (JObj [(''apiKey'', JStr k), (''githubUrl'', JStr u)])"

definition sample_url :: string where
  "sample_url = ''https://github.com/vercel/next.js''"

section \<open>Facts about the model\<close>

subsection \<open>The query\<close>

lemma trim_Nil [simp]: "trim [] = []"
  by (simp add: trim_def)

lemma select_single_Data_iff:
  "select_single env s k = Data r \<longleftrightarrow> select_error env = None \<and> active_rows s k = [r]"
  by (auto simp: select_single_def split: option.splits list.splits)

lemma active_rows_single:
  assumes "active_rows s k = [r]"
  shows "r \<in> set s \<and> key_value r = k \<and> status r = Some ''active''"
proof -
  have "r \<in> set (active_rows s k)" using assms by simp
  then show ?thesis by (simp add: active_rows_def)
qed

lemma unique_key_inactive_no_active_row:
  assumes "distinct (map key_value s)"
    and "r \<in> set s" and "key_value r = k" and "status r \<noteq> Some ''active''"
  shows "active_rows s k = []"
proof -
  have "x = r" if "x \<in> set s" "key_value x = k" for x
    using assms(1,2,3) that by (meson distinct_map inj_onD)
  then show ?thesis
    using assms(4) by (auto simp: active_rows_def filter_empty_conv)
qed

subsection \<open>When the gateway goes on past STEP 6\<close>

text \<open>The route reaches STEP 7 with the row \<open>r\<close> exactly when the body is an object
  whose \<open>apiKey\<close> and \<open>githubUrl\<close> are strings that are not empty after trimming,
  and the query for the trimmed key returned \<open>r\<close>.\<close>

lemma summarizer_validate_Inr_iff:
  "summarizer_validate env s request = Inr (r, u) \<longleftrightarrow>
     (\<exists>b k g. request = Some b \<and> property b ''apiKey'' = Some (JStr k) \<and>
        property b ''githubUrl'' = Some (JStr g) \<and> trim k \<noteq> [] \<and> trim g \<noteq> [] \<and>
        u = trim g \<and> select_single env s (trim k) = Data r)"
proof (cases request)
  case None
  then show ?thesis by (simp add: summarizer_validate_def)
next
  case (Some b)
  show ?thesis
  proof (cases "b = JNull")
    case True
    with Some show ?thesis by (simp add: summarizer_validate_def)
  next
    case False
    show ?thesis
      using Some False
      by (cases "property b ''apiKey''" rule: truthy.cases; cases "property b ''githubUrl''" rule: truthy.cases; cases b)
         (auto simp: summarizer_validate_def Let_def split: db_result.splits)
  qed
qed

lemma commit_after_prepare:
  assumes "summarizer_validate env s request = Inr (r, u)"
    and "\<not> limit_exceeded r" and "githubUrlPattern_test u"
  shows "github_summarizer_POST env s request =
     summarizer_commit env s
       \<lparr>apiKeyData = r,
        summary = JObj
          [(''repository'', JStr u),
           (''summary'', JStr ''This is a placeholder summary. Actual GitHub summarization logic would be implemented here.''),
           (''timestamp'', JStr (summary_clock env)),
           (''processed_by'', JStr (name r))]\<rparr>"
  using assms by (simp add: github_summarizer_POST_def summarizer_prepare_def)

lemma below_limit_not_exceeded:
  "usage_count r = Some c \<Longrightarrow> usage_limit r = Some l \<Longrightarrow> c < l \<Longrightarrow> \<not> limit_exceeded r"
  by (simp add: limit_exceeded_def to_number_def)

subsection \<open>The validator when no active row matches\<close>

lemma no_active_row_not_found:
  assumes "request = Some b"
    and "property b ''apiKey'' = Some (JStr k)"
    and "trim k \<noteq> []"
    and "active_rows s (trim k) = []"
  shows "reply (validate_key_POST env s request) =
     (case select_error env of
        None \<Rightarrow> validate_error ''Invalid API key'' 404
      | Some code \<Rightarrow>
          if code = ''PGRST116'' then validate_error ''Invalid API key'' 404
          else validate_error ''Database error occurred'' 500)"
proof -
  have ne: "k \<noteq> []" using assms(3) by auto
  have "b \<noteq> JNull" using assms(2) by auto
  then show ?thesis
    using assms ne
    by (cases b) (simp_all add: validate_key_POST_def select_single_def split: option.splits)
qed

subsection \<open>Lower case and the search for "prod"\<close>

lemma lower_char_eq_iff:
  assumes "(of_char t :: nat) \<ge> 97" "(of_char t :: nat) \<le> 122"
  shows "lower_char c = t \<longleftrightarrow> c = t \<or> c = char_of ((of_char t :: nat) - 32)"
proof -
  have nu: "\<not> is_upper t" using assms by (simp add: is_upper_def)
  show ?thesis
  proof (cases "is_upper c")
    case False
    have "c \<noteq> char_of ((of_char t :: nat) - 32)"
    proof
      assume "c = char_of ((of_char t :: nat) - 32)"
      then have "(of_char c :: nat) = (of_char t - 32) mod 256" by simp
      then have "(of_char c :: nat) = of_char t - 32" using assms by simp
      then show False using False assms by (auto simp: is_upper_def Let_def)
    qed
    with False show ?thesis by (simp add: lower_char_def)
  next
    case True
    then have b: "(of_char c :: nat) + 32 < 256" by (auto simp: is_upper_def Let_def)
    have "c \<noteq> t" using True nu by auto
    moreover have "char_of ((of_char c :: nat) + 32) = t \<longleftrightarrow> c = char_of ((of_char t :: nat) - 32)"
    proof
      assume "char_of ((of_char c :: nat) + 32) = t"
      then have "(of_char t :: nat) = (of_char c + 32) mod 256" by auto
      then have "(of_char t :: nat) - 32 = of_char c" using b by simp
      then show "c = char_of ((of_char t :: nat) - 32)" by simp
    next
      assume "c = char_of ((of_char t :: nat) - 32)"
      then have "(of_char c :: nat) = (of_char t - 32) mod 256" by simp
      then have "(of_char c :: nat) + 32 = of_char t" using assms by simp
      then show "char_of ((of_char c :: nat) + 32) = t" by simp
    qed
    ultimately show ?thesis using True by (simp add: lower_char_def)
  qed
qed

lemma lower_p: "lower_char c = CHR ''p'' \<longleftrightarrow> c \<in> {CHR ''p'', CHR ''P''}"
proof -
  have "char_of (80::nat) = CHR ''P''" by (simp add: char_of_eq_iff)
  then show ?thesis by (simp add: lower_char_eq_iff)
qed

lemma lower_r: "lower_char c = CHR ''r'' \<longleftrightarrow> c \<in> {CHR ''r'', CHR ''R''}"
proof -
  have "char_of (82::nat) = CHR ''R''" by (simp add: char_of_eq_iff)
  then show ?thesis by (simp add: lower_char_eq_iff)
qed

lemma lower_o: "lower_char c = CHR ''o'' \<longleftrightarrow> c \<in> {CHR ''o'', CHR ''O''}"
proof -
  have "char_of (79::nat) = CHR ''O''" by (simp add: char_of_eq_iff)
  then show ?thesis by (simp add: lower_char_eq_iff)
qed

lemma lower_d: "lower_char c = CHR ''d'' \<longleftrightarrow> c \<in> {CHR ''d'', CHR ''D''}"
proof -
  have "char_of (68::nat) = CHR ''D''" by (simp add: char_of_eq_iff)
  then show ?thesis by (simp add: lower_char_eq_iff)
qed

lemma includes_str_length: "includes_str s t \<Longrightarrow> length t \<le> length s"
  by (induction s) (auto dest: prefix_length_le)

lemma includes_str_iff: "includes_str s t \<longleftrightarrow> (\<exists>xs ys. s = xs @ t @ ys)"
proof (induction s)
  case Nil
  then show ?case by auto
next
  case (Cons c cs)
  show ?case
  proof
    assume "includes_str (c # cs) t"
    then consider "prefix t (c # cs)" | "includes_str cs t" by auto
    then show "\<exists>xs ys. c # cs = xs @ t @ ys"
    proof cases
      case 1
      then obtain ys where "c # cs = t @ ys" by (auto simp: prefix_def)
      then have "c # cs = [] @ t @ ys" by simp
      then show ?thesis by blast
    next
      case 2
      then obtain xs ys where "cs = xs @ t @ ys" using Cons.IH by auto
      then have "c # cs = (c # xs) @ t @ ys" by simp
      then show ?thesis by blast
    qed
  next
    assume "\<exists>xs ys. c # cs = xs @ t @ ys"
    then obtain xs ys where e: "c # cs = xs @ t @ ys" by auto
    show "includes_str (c # cs) t"
    proof (cases xs)
      case Nil
      then have "prefix t (c # cs)" using e by (simp add: prefix_def)
      then show ?thesis by simp
    next
      case (Cons x xs')
      then have "cs = xs' @ t @ ys" using e by simp
      then have "includes_str cs t" using Cons.IH by blast
      then show ?thesis by simp
    qed
  qed
qed

lemma includes_prod_iff:
  "includes_str (toLowerCase n) ''prod'' \<longleftrightarrow> contains_prod_any_casing n"
proof (induction n rule: contains_prod_any_casing.induct)
  case (1 a b c d rest)
  have "prefix ''prod'' (toLowerCase (a # b # c # d # rest)) \<longleftrightarrow>
      a \<in> {CHR ''p'', CHR ''P''} \<and> b \<in> {CHR ''r'', CHR ''R''} \<and>
      c \<in> {CHR ''o'', CHR ''O''} \<and> d \<in> {CHR ''d'', CHR ''D''}"
    unfolding toLowerCase_def list.map prefix_Cons
    by (simp only: lower_p [symmetric] lower_r [symmetric] lower_o [symmetric] lower_d [symmetric]) auto
  moreover have "includes_str (toLowerCase (a # b # c # d # rest)) ''prod'' \<longleftrightarrow>
      prefix ''prod'' (toLowerCase (a # b # c # d # rest)) \<or> includes_str (toLowerCase (b # c # d # rest)) ''prod''"
    by (simp add: toLowerCase_def)
  ultimately show ?case using 1 by simp
qed (simp_all add: toLowerCase_def)

text \<open>The recursive search is the search for four such characters in a row.\<close>

lemma contains_prod_any_casing_iff:
  "contains_prod_any_casing n \<longleftrightarrow>
     (\<exists>xs a b c d ys. n = xs @ a # b # c # d # ys \<and>
        a \<in> {CHR ''p'', CHR ''P''} \<and> b \<in> {CHR ''r'', CHR ''R''} \<and>
        c \<in> {CHR ''o'', CHR ''O''} \<and> d \<in> {CHR ''d'', CHR ''D''})"
proof (induction n rule: contains_prod_any_casing.induct)
  case (1 a b c d rest)
  let ?hd = "a \<in> {CHR ''p'', CHR ''P''} \<and> b \<in> {CHR ''r'', CHR ''R''} \<and>
        c \<in> {CHR ''o'', CHR ''O''} \<and> d \<in> {CHR ''d'', CHR ''D''}"
  let ?R = "\<lambda>n. \<exists>xs a b c d ys. n = xs @ a # b # c # d # ys \<and>
        a \<in> {CHR ''p'', CHR ''P''} \<and> b \<in> {CHR ''r'', CHR ''R''} \<and>
        c \<in> {CHR ''o'', CHR ''O''} \<and> d \<in> {CHR ''d'', CHR ''D''}"
  have "?R (a # b # c # d # rest) \<longleftrightarrow> ?hd \<or> ?R (b # c # d # rest)"
  proof
    assume "?R (a # b # c # d # rest)"
    then obtain xs a' b' c' d' ys where e: "a # b # c # d # rest = xs @ a' # b' # c' # d' # ys"
      and m: "a' \<in> {CHR ''p'', CHR ''P''}" "b' \<in> {CHR ''r'', CHR ''R''}"
        "c' \<in> {CHR ''o'', CHR ''O''}" "d' \<in> {CHR ''d'', CHR ''D''}"
      by blast
    show "?hd \<or> ?R (b # c # d # rest)"
    proof (cases xs)
      case Nil
      with e m show ?thesis by simp
    next
      case (Cons x xs')
      with e have "b # c # d # rest = xs' @ a' # b' # c' # d' # ys" by simp
      with m show ?thesis by blast
    qed
  next
    assume "?hd \<or> ?R (b # c # d # rest)"
    then show "?R (a # b # c # d # rest)"
    proof
      assume ?hd
      then have "a # b # c # d # rest = [] @ a # b # c # d # rest \<and> ?hd" by simp
      then show ?thesis by blast
    next
      assume "?R (b # c # d # rest)"
      then obtain xs a' b' c' d' ys where e: "b # c # d # rest = xs @ a' # b' # c' # d' # ys"
        and m: "a' \<in> {CHR ''p'', CHR ''P''}" "b' \<in> {CHR ''r'', CHR ''R''}"
          "c' \<in> {CHR ''o'', CHR ''O''}" "d' \<in> {CHR ''d'', CHR ''D''}"
        by blast
      from e have "a # b # c # d # rest = (a # xs) @ a' # b' # c' # d' # ys" by simp
      with m show ?thesis by blast
    qed
  qed
  with 1 show ?case by simp
qed (simp_all add: Cons_eq_append_conv)

lemma length_substring: "length (substring s a b) \<le> (if a \<le> b then b - a else a - b)"
  by (auto simp: substring_def Let_def)

lemma length_randomKey: "length (randomKey rnd1 rnd2) \<le> 32"
  using length_substring [of rnd1 2 18] length_substring [of rnd2 2 18]
  by (simp add: randomKey_def)

section \<open>The gateway\<close>

text \<open>
  Claim C1. A gated request whose key validates to a row with a positive
  \<open>usage_limit\<close> and a \<open>usage_count\<close> that has reached it is answered with 429;
  the store is left as it was, and the only thing the handler did was the query: no
  summary was produced and no update was sent.
\<close>

theorem rate_limited_without_work_or_mutation:
  assumes "summarizer_validate env s request = Inr (r, u)"
    and "usage_limit r = Some l" and "0 < l"
    and "usage_count r = Some c" and "l \<le> c"
  shows "http_status (reply (github_summarizer_POST env s request)) = 429
       \<and> body (reply (github_summarizer_POST env s request)) =
           JObj [(''success'', JBool False), (''error'', JStr ''API key usage limit exceeded'')]
       \<and> store_after (github_summarizer_POST env s request) = s
       \<and> effects (github_summarizer_POST env s request) = [Select]"
proof -
  have "limit_exceeded r"
    using assms(2-5) by (simp add: limit_exceeded_def to_number_def)
  then show ?thesis
    using assms(1)
    by (simp add: github_summarizer_POST_def summarizer_prepare_def summarizer_error_def
        json_response_def)
qed

theorem rate_limited_without_work_or_mutation_witness:
  "summarizer_validate sample_env [sample_row\<lparr>usage_count := Some 1\<rparr>]
       (sample_request '' pk_live_abc '' sample_url)
     = Inr (sample_row\<lparr>usage_count := Some 1\<rparr>, sample_url)
   \<and> http_status (reply (github_summarizer_POST sample_env [sample_row\<lparr>usage_count := Some 1\<rparr>]
       (sample_request '' pk_live_abc '' sample_url))) = 429
   \<and> store_after (github_summarizer_POST sample_env [sample_row\<lparr>usage_count := Some 1\<rparr>]
       (sample_request '' pk_live_abc '' sample_url)) = [sample_row\<lparr>usage_count := Some 1\<rparr>]"
proof -
  have h: "summarizer_validate sample_env [sample_row\<lparr>usage_count := Some 1\<rparr>]
       (sample_request '' pk_live_abc '' sample_url)
     = Inr (sample_row\<lparr>usage_count := Some 1\<rparr>, sample_url)"
    by code_simp
  show ?thesis
    using h rate_limited_without_work_or_mutation [OF h, of 1 1]
    by (simp add: sample_row_def)
qed

text \<open>
  Claim C2, as amended. The claim as written promises the increment and the success
  response for every request whose key validates below its limit. STEP 8 comes after
  the limit check and turns a request away when its URL does not fit the pattern, and
  in STEP 10 the store may refuse the update. When the URL fits and the store accepts
  the update, every row with the id of the validated row gets the count read in STEP 5
  plus one and the database's time as \<open>updated_at\<close>, and the answer is 200 with the
  usage \<open>{current: count + 1, limit}\<close>.
\<close>

theorem usage_incremented_on_success:
  assumes "summarizer_validate env s request = Inr (r, u)"
    and "usage_count r = Some c" and "usage_limit r = Some l" and "c < l"
    and "githubUrlPattern_test u"
    and "update_error env = None"
  shows "http_status (reply (github_summarizer_POST env s request)) = 200
       \<and> property (body (reply (github_summarizer_POST env s request))) ''success'' = Some (JBool True)
       \<and> property (body (reply (github_summarizer_POST env s request))) ''usage'' =
           Some (JObj [(''current'', JNum (c + 1)), (''limit'', JNum l)])
       \<and> store_after (github_summarizer_POST env s request) =
           map (\<lambda>x. if row_id x = row_id r
                    then x\<lparr>usage_count := Some (c + 1), updated_at := db_clock env\<rparr>
                    else x) s
       \<and> r\<lparr>usage_count := Some (c + 1), updated_at := db_clock env\<rparr>
           \<in> set (store_after (github_summarizer_POST env s request))"
proof -
  have ne: "\<not> limit_exceeded r"
    using assms(2-4) by (rule below_limit_not_exceeded)
  have mem: "r \<in> set s"
    using assms(1) active_rows_single
    by (auto simp: summarizer_validate_Inr_iff select_single_Data_iff)
  have st: "store_after (github_summarizer_POST env s request) =
           map (\<lambda>x. if row_id x = row_id r
                    then x\<lparr>usage_count := Some (c + 1), updated_at := db_clock env\<rparr>
                    else x) s"
    using assms(2,3,6)
    by (simp add: commit_after_prepare [OF assms(1) ne assms(5)] summarizer_commit_def
        update_usage_def to_number_def update_updated_at_column_def Let_def)
  have "r\<lparr>usage_count := Some (c + 1), updated_at := db_clock env\<rparr>
      \<in> (\<lambda>x. if row_id x = row_id r
                    then x\<lparr>usage_count := Some (c + 1), updated_at := db_clock env\<rparr>
                    else x) ` set s"
    using mem by (rule rev_image_eqI) simp
  then have in_st: "r\<lparr>usage_count := Some (c + 1), updated_at := db_clock env\<rparr>
           \<in> set (store_after (github_summarizer_POST env s request))"
    by (simp add: st)
  have rep: "reply (github_summarizer_POST env s request) =
     \<lparr>http_status = 200,
      body = JObj [(''success'', JBool True),
         (''data'', JObj
          [(''repository'', JStr u),
           (''summary'', JStr ''This is a placeholder summary. Actual GitHub summarization logic would be implemented here.''),
           (''timestamp'', JStr (summary_clock env)),
           (''processed_by'', JStr (name r))]),
         (''usage'', JObj [(''current'', JNum (c + 1)), (''limit'', JNum l)])]\<rparr>"
    using assms(2,3)
    by (simp add: commit_after_prepare [OF assms(1) ne assms(5)] summarizer_commit_def
        to_number_def opt_num_def json_response_def Let_def split: prod.splits)
  show ?thesis
    using st in_st by (simp add: rep)
qed

theorem usage_incremented_on_success_witness:
  "summarizer_validate sample_env [sample_row] (sample_request ''pk_live_abc'' sample_url)
     = Inr (sample_row, sample_url)
   \<and> githubUrlPattern_test sample_url
   \<and> http_status (reply (github_summarizer_POST sample_env [sample_row]
        (sample_request ''pk_live_abc'' sample_url))) = 200
   \<and> property (body (reply (github_summarizer_POST sample_env [sample_row]
        (sample_request ''pk_live_abc'' sample_url)))) ''usage'' =
        Some (JObj [(''current'', JNum 1), (''limit'', JNum 1)])
   \<and> store_after (github_summarizer_POST sample_env [sample_row]
        (sample_request ''pk_live_abc'' sample_url)) =
        [sample_row\<lparr>usage_count := Some 1, updated_at := ''2024-02-01T10:00:00.002Z''\<rparr>]"
proof -
  have h: "summarizer_validate sample_env [sample_row] (sample_request ''pk_live_abc'' sample_url)
     = Inr (sample_row, sample_url)"
    by code_simp
  have g: "githubUrlPattern_test sample_url"
    by code_simp
  have e: "update_error sample_env = None"
    by (simp add: sample_env_def)
  have c: "usage_count sample_row = Some 0" and l: "usage_limit sample_row = Some 1"
    by (simp_all add: sample_row_def)
  show ?thesis
    using h g usage_incremented_on_success [OF h c l _ g e]
    by (simp add: sample_env_def)
qed

text \<open>The claim as written fails: the key validates, the count 0 is below the limit 1,
  and the answer is 400 with the store unchanged, because the URL does not fit.\<close>

theorem malformed_url_blocks_increment:
  "summarizer_validate sample_env [sample_row] (sample_request ''pk_live_abc'' ''not a url'')
     = Inr (sample_row, ''not a url'')
   \<and> usage_count sample_row = Some 0 \<and> usage_limit sample_row = Some 1
   \<and> http_status (reply (github_summarizer_POST sample_env [sample_row]
        (sample_request ''pk_live_abc'' ''not a url''))) = 400
   \<and> store_after (github_summarizer_POST sample_env [sample_row]
        (sample_request ''pk_live_abc'' ''not a url'')) = [sample_row]"
  by code_simp

text \<open>
  Claim C3. Two requests for the same key, with limit 1 and count 0, are both in
  flight: each runs its query before either sends its update. Both read the count 0,
  both pass the limit check, both answer 200 with \<open>current = 1\<close>, and both write the
  count 1. The claim asks for one 200 and one 429.
\<close>

theorem racing_requests_both_succeed:
  "(case run_two sample_env sample_env [False, True, False, True]
           ([sample_row],
            Ready (sample_request ''pk_live_abc'' sample_url),
            Ready (sample_request ''pk_live_abc'' sample_url)) of
      (s', h1, h2) \<Rightarrow> (map usage_count s', handler_status h1, handler_status h2))
   = ([Some 1], Some 200, Some 200)"
  by code_simp

text \<open>The six ways in which the two handlers can take their two steps each. The
  second request is turned away only when the first has finished before it starts, or
  the other way round; the stored count is 1 every time.\<close>

lemma every_complete_schedule:
  "map (\<lambda>sched.
      case run_two sample_env sample_env sched
             ([sample_row],
              Ready (sample_request ''pk_live_abc'' sample_url),
              Ready (sample_request ''pk_live_abc'' sample_url)) of
        (s', h1, h2) \<Rightarrow> (map usage_count s', handler_status h1, handler_status h2))
     [[False, False, True, True], [False, True, False, True], [False, True, True, False],
      [True, False, False, True], [True, False, True, False], [True, True, False, False]]
   = [([Some 1], Some 200, Some 429), ([Some 1], Some 200, Some 200),
      ([Some 1], Some 200, Some 200), ([Some 1], Some 200, Some 200),
      ([Some 1], Some 200, Some 200), ([Some 1], Some 429, Some 200)]"
  by code_simp

text \<open>
  Claim C9. The key validates, the limit check passes, the URL fits, so the summary is
  produced, and then the update fails. The route logs the failure and answers 200 with
  the summary and the usage it would have written; the store is unchanged.
\<close>

theorem success_despite_failed_update:
  assumes "summarizer_validate env s request = Inr (r, u)"
    and "\<not> limit_exceeded r"
    and "githubUrlPattern_test u"
    and "update_error env = Some code"
  shows "reply (github_summarizer_POST env s request) =
     \<lparr>http_status = 200,
      body = JObj [(''success'', JBool True),
         (''data'', JObj
          [(''repository'', JStr u),
           (''summary'', JStr ''This is a placeholder summary. Actual GitHub summarization logic would be implemented here.''),
           (''timestamp'', JStr (summary_clock env)),
           (''processed_by'', JStr (name r))]),
         (''usage'', JObj [(''current'', JNum (to_number (usage_count r) + 1)),
                           (''limit'', opt_num (usage_limit r))])]\<rparr>
     \<and> store_after (github_summarizer_POST env s request) = s
     \<and> effects (github_summarizer_POST env s request) =
         [Select, Summarize, Update (row_id r) (to_number (usage_count r) + 1),
          ConsoleError ''Failed to update usage count:'']"
  using assms(4)
  by (simp add: commit_after_prepare [OF assms(1-3)] summarizer_commit_def
      update_usage_def json_response_def Let_def)

theorem success_despite_failed_update_witness:
  "summarizer_validate (sample_env\<lparr>update_error := Some ''57014''\<rparr>) [sample_row]
       (sample_request ''pk_live_abc'' sample_url) = Inr (sample_row, sample_url)
   \<and> \<not> limit_exceeded sample_row
   \<and> githubUrlPattern_test sample_url
   \<and> http_status (reply (github_summarizer_POST (sample_env\<lparr>update_error := Some ''57014''\<rparr>)
        [sample_row] (sample_request ''pk_live_abc'' sample_url))) = 200
   \<and> store_after (github_summarizer_POST (sample_env\<lparr>update_error := Some ''57014''\<rparr>)
        [sample_row] (sample_request ''pk_live_abc'' sample_url)) = [sample_row]"
proof -
  have h: "summarizer_validate (sample_env\<lparr>update_error := Some ''57014''\<rparr>) [sample_row]
       (sample_request ''pk_live_abc'' sample_url) = Inr (sample_row, sample_url)"
    by code_simp
  have n: "\<not> limit_exceeded sample_row"
    by code_simp
  have g: "githubUrlPattern_test sample_url"
    by code_simp
  have e: "update_error (sample_env\<lparr>update_error := Some ''57014''\<rparr>) = Some ''57014''"
    by simp
  show ?thesis
    using h n g success_despite_failed_update [OF h n g e]
    by simp
qed

text \<open>
  Claim C10, as amended. For a validated row whose \<open>usage_limit\<close> is \<open>NULL\<close> or 0
  the limit test of STEP 7 is false whatever the count, and the answer is never 429.
  The update with the count plus one is sent, and the answer is 200, when the URL fits
  the pattern of STEP 8; the claim as written says the increment always proceeds.
\<close>

theorem no_limit_never_rate_limited:
  assumes "summarizer_validate env s request = Inr (r, u)"
    and "usage_limit r = None \<or> usage_limit r = Some 0"
  shows "http_status (reply (github_summarizer_POST env s request)) \<noteq> 429
       \<and> \<not> limit_exceeded r
       \<and> (githubUrlPattern_test u \<longrightarrow>
            http_status (reply (github_summarizer_POST env s request)) = 200
          \<and> Update (row_id r) (to_number (usage_count r) + 1)
              \<in> set (effects (github_summarizer_POST env s request)))"
proof -
  have ne: "\<not> limit_exceeded r"
    using assms(2) by (auto simp: limit_exceeded_def)
  show ?thesis
  proof (cases "githubUrlPattern_test u")
    case True
    show ?thesis
      using ne True
      by (simp add: commit_after_prepare [OF assms(1) ne True] summarizer_commit_def
          json_response_def Let_def split: prod.splits)
  next
    case False
    then show ?thesis
      using ne assms(1)
      by (simp add: github_summarizer_POST_def summarizer_prepare_def summarizer_error_def
          json_response_def)
  qed
qed

theorem no_limit_never_rate_limited_witness:
  "summarizer_validate sample_env [sample_row\<lparr>usage_count := Some 5000, usage_limit := None\<rparr>]
       (sample_request ''pk_live_abc'' sample_url)
     = Inr (sample_row\<lparr>usage_count := Some 5000, usage_limit := None\<rparr>, sample_url)
   \<and> githubUrlPattern_test sample_url
   \<and> http_status (reply (github_summarizer_POST sample_env
        [sample_row\<lparr>usage_count := Some 5000, usage_limit := None\<rparr>]
        (sample_request ''pk_live_abc'' sample_url))) = 200
   \<and> Update ''7f3a'' 5001 \<in> set (effects (github_summarizer_POST sample_env
        [sample_row\<lparr>usage_count := Some 5000, usage_limit := None\<rparr>]
        (sample_request ''pk_live_abc'' sample_url)))"
proof -
  have h: "summarizer_validate sample_env [sample_row\<lparr>usage_count := Some 5000, usage_limit := None\<rparr>]
       (sample_request ''pk_live_abc'' sample_url)
     = Inr (sample_row\<lparr>usage_count := Some 5000, usage_limit := None\<rparr>, sample_url)"
    by code_simp
  have g: "githubUrlPattern_test sample_url"
    by code_simp
  have l: "usage_limit (sample_row\<lparr>usage_count := Some 5000, usage_limit := None\<rparr>) = None
      \<or> usage_limit (sample_row\<lparr>usage_count := Some 5000, usage_limit := None\<rparr>) = Some 0"
    by simp
  show ?thesis
    using h g no_limit_never_rate_limited [OF h l]
    by (simp add: sample_row_def to_number_def)
qed

text \<open>The claim as written fails: the limit is \<open>NULL\<close>, the URL does not fit, the
  answer is 400 and the handler only ran the query.\<close>

theorem no_limit_malformed_url_no_increment:
  "summarizer_validate sample_env [sample_row\<lparr>usage_count := Some 5000, usage_limit := None\<rparr>]
       (sample_request ''pk_live_abc'' ''not a url'')
     = Inr (sample_row\<lparr>usage_count := Some 5000, usage_limit := None\<rparr>, ''not a url'')
   \<and> http_status (reply (github_summarizer_POST sample_env
        [sample_row\<lparr>usage_count := Some 5000, usage_limit := None\<rparr>]
        (sample_request ''pk_live_abc'' ''not a url''))) = 400
   \<and> effects (github_summarizer_POST sample_env
        [sample_row\<lparr>usage_count := Some 5000, usage_limit := None\<rparr>]
        (sample_request ''pk_live_abc'' ''not a url'')) = [Select]
   \<and> store_after (github_summarizer_POST sample_env
        [sample_row\<lparr>usage_count := Some 5000, usage_limit := None\<rparr>]
        (sample_request ''pk_live_abc'' ''not a url''))
       = [sample_row\<lparr>usage_count := Some 5000, usage_limit := None\<rparr>]"
  by code_simp

section \<open>The validator\<close>

text \<open>
  Claim C4. When the body carries a string \<open>apiKey\<close> that is not empty after
  trimming, the query does not fail, and exactly one active row has the trimmed key as
  its \<open>key_value\<close>, the validator answers 200 with \<open>valid = true\<close> and a \<open>data\<close>
  object that holds \<open>id\<close>, \<open>name\<close>, \<open>status\<close>, \<open>usage_count\<close>,
  \<open>usage_limit\<close>, \<open>created_at\<close> and \<open>updated_at\<close> of that row and has no field
  \<open>key_value\<close>.
\<close>

theorem validator_returns_record_without_key_value:
  assumes "request = Some b"
    and "property b ''apiKey'' = Some (JStr k)"
    and "trim k \<noteq> []"
    and "select_error env = None"
    and "active_rows s (trim k) = [r]"
  shows "http_status (reply (validate_key_POST env s request)) = 200
       \<and> body (reply (validate_key_POST env s request)) =
           JObj [(''valid'', JBool True),
                 (''data'', JObj
                    [(''id'', JStr (row_id r)),
                     (''name'', JStr (name r)),
                     (''status'', opt_str (status r)),
                     (''usage_count'', opt_num (usage_count r)),
                     (''usage_limit'', opt_num (usage_limit r)),
                     (''created_at'', JStr (created_at r)),
                     (''updated_at'', JStr (updated_at r))])]
       \<and> (\<forall>d. property (body (reply (validate_key_POST env s request))) ''data'' = Some d \<longrightarrow>
              ''key_value'' \<notin> set (field_names d) \<and> property d ''key_value'' = None)"
proof -
  have ne: "k \<noteq> []" using assms(3) by auto
  have sel: "select_single env s (trim k) = Data r"
    using assms(4,5) by (simp add: select_single_Data_iff)
  have "b \<noteq> JNull" using assms(2) by auto
  then have "validate_key_POST env s request =
     \<lparr>reply = json_response (JObj [(''valid'', JBool True), (''data'', validate_data r)]) 200,
      store_after = s, effects = [Select]\<rparr>"
    using assms(1-3) ne sel
    by (cases b) (simp_all add: validate_key_POST_def)
  then show ?thesis
    by (simp add: json_response_def validate_data_def)
qed

theorem validator_returns_record_without_key_value_witness:
  "active_rows [sample_row] (trim '' pk_live_abc '') = [sample_row]
   \<and> trim '' pk_live_abc '' \<noteq> []
   \<and> body (reply (validate_key_POST sample_env [sample_row]
        (Some (JObj [(''apiKey'', JStr '' pk_live_abc '')])))) =
       JObj [(''valid'', JBool True),
             (''data'', JObj
                [(''id'', JStr ''7f3a''),
                 (''name'', JStr ''Production Key''),
                 (''status'', JStr ''active''),
                 (''usage_count'', JNum 0),
                 (''usage_limit'', JNum 1),
                 (''created_at'', JStr ''2024-01-01T00:00:00Z''),
                 (''updated_at'', JStr ''2024-01-01T00:00:00Z'')])]"
proof -
  have p: "property (JObj [(''apiKey'', JStr '' pk_live_abc '')]) ''apiKey'' = Some (JStr '' pk_live_abc '')"
    by simp
  have t: "trim '' pk_live_abc '' \<noteq> []"
    by code_simp
  have e: "select_error sample_env = None"
    by (simp add: sample_env_def)
  have a: "active_rows [sample_row] (trim '' pk_live_abc '') = [sample_row]"
    by code_simp
  show ?thesis
    using a t validator_returns_record_without_key_value [OF refl p t e a]
    by (simp add: sample_row_def opt_str_def opt_num_def)
qed

text \<open>
  Claim C5. Two validation requests carry keys that are not empty after trimming. The
  first key belongs to a row whose status is \<open>inactive\<close>, in a store whose key values
  are unique as the schema demands; the second key matches no row of its store. When
  the database behaves the same for both, the two answers are equal, status and body.
\<close>

theorem inactive_indistinguishable_from_unknown:
  assumes "request1 = Some b1" and "property b1 ''apiKey'' = Some (JStr k1)" and "trim k1 \<noteq> []"
    and "request2 = Some b2" and "property b2 ''apiKey'' = Some (JStr k2)" and "trim k2 \<noteq> []"
    and "distinct (map key_value s1)"
    and "r \<in> set s1" and "key_value r = trim k1" and "status r = Some ''inactive''"
    and "\<forall>x \<in> set s2. key_value x \<noteq> trim k2"
    and "select_error env1 = select_error env2"
  shows "reply (validate_key_POST env1 s1 request1) = reply (validate_key_POST env2 s2 request2)"
proof -
  have a1: "active_rows s1 (trim k1) = []"
    using assms(7-10) by (intro unique_key_inactive_no_active_row [where r = r]) simp_all
  have a2: "active_rows s2 (trim k2) = []"
    using assms(11) by (auto simp: active_rows_def filter_empty_conv)
  show ?thesis
    by (simp add: no_active_row_not_found [OF assms(1-3) a1]
        no_active_row_not_found [OF assms(4-6) a2] assms(12))
qed

theorem inactive_indistinguishable_from_unknown_witness:
  "reply (validate_key_POST sample_env [sample_row\<lparr>status := Some ''inactive''\<rparr>]
       (Some (JObj [(''apiKey'', JStr ''pk_live_abc'')])))
   = reply (validate_key_POST sample_env [sample_row\<lparr>status := Some ''inactive''\<rparr>]
       (Some (JObj [(''apiKey'', JStr ''pk_live_xyz'')])))
   \<and> http_status (reply (validate_key_POST sample_env [sample_row\<lparr>status := Some ''inactive''\<rparr>]
       (Some (JObj [(''apiKey'', JStr ''pk_live_xyz'')])))) = 404"
proof -
  have p1: "property (JObj [(''apiKey'', JStr ''pk_live_abc'')]) ''apiKey'' = Some (JStr ''pk_live_abc'')"
    and p2: "property (JObj [(''apiKey'', JStr ''pk_live_xyz'')]) ''apiKey'' = Some (JStr ''pk_live_xyz'')"
    by simp_all
  have t1: "trim ''pk_live_abc'' \<noteq> []" and t2: "trim ''pk_live_xyz'' \<noteq> []"
    by code_simp+
  have d: "distinct (map key_value [sample_row\<lparr>status := Some ''inactive''\<rparr>])"
    by simp
  have m: "sample_row\<lparr>status := Some ''inactive''\<rparr> \<in> set [sample_row\<lparr>status := Some ''inactive''\<rparr>]"
    by simp
  have k: "key_value (sample_row\<lparr>status := Some ''inactive''\<rparr>) = trim ''pk_live_abc''"
    by code_simp
  have i: "status (sample_row\<lparr>status := Some ''inactive''\<rparr>) = Some ''inactive''"
    by simp
  have n: "\<forall>x \<in> set [sample_row\<lparr>status := Some ''inactive''\<rparr>]. key_value x \<noteq> trim ''pk_live_xyz''"
    by code_simp
  have "http_status (reply (validate_key_POST sample_env [sample_row\<lparr>status := Some ''inactive''\<rparr>]
       (Some (JObj [(''apiKey'', JStr ''pk_live_xyz'')])))) = 404"
    by code_simp
  then show ?thesis
    using inactive_indistinguishable_from_unknown [OF refl p1 t1 refl p2 t2 d m k i n refl]
    by simp
qed

text \<open>
  Claim C6. Whatever the request, the store after the validator has answered is the
  store before, and the validator sent no update.
\<close>

theorem validator_leaves_store_unchanged:
  "store_after (validate_key_POST env s request) = s
   \<and> (\<forall>i n. Update i n \<notin> set (effects (validate_key_POST env s request)))"
proof (cases request)
  case None
  then show ?thesis by (simp add: validate_key_POST_def validate_caught_def)
next
  case (Some b)
  then show ?thesis
    by (cases b)
       (auto simp: validate_key_POST_def validate_caught_def Let_def split: db_result.splits)
qed

theorem validator_leaves_store_unchanged_witness:
  "store_after (validate_key_POST sample_env [sample_row]
       (Some (JObj [(''apiKey'', JStr ''pk_live_abc'')]))) = [sample_row]
   \<and> effects (validate_key_POST sample_env [sample_row]
       (Some (JObj [(''apiKey'', JStr ''pk_live_abc'')]))) = [Select]"
proof -
  have "effects (validate_key_POST sample_env [sample_row]
       (Some (JObj [(''apiKey'', JStr ''pk_live_abc'')]))) = [Select]"
    by code_simp
  then show ?thesis
    using validator_leaves_store_unchanged [of sample_env "[sample_row]"
        "Some (JObj [(''apiKey'', JStr ''pk_live_abc'')])"]
    by simp
qed

section \<open>The key generator\<close>

text \<open>
  Claim C7. Whatever the two random strings, the generated key starts with
  \<open>pk_live_\<close> exactly when the name contains "prod" in some casing, and starts with
  \<open>pk_dev_\<close> exactly when it does not.
\<close>

theorem prefix_follows_prod:
  "prefix ''pk_live_'' (generateApiKey n rnd1 rnd2) = contains_prod_any_casing n
   \<and> prefix ''pk_dev_'' (generateApiKey n rnd1 rnd2) = (\<not> contains_prod_any_casing n)"
  by (simp add: generateApiKey_def key_prefix_def includes_prod_iff)

theorem prefix_follows_prod_witness:
  "contains_prod_any_casing ''My PrOd key''
   \<and> prefix ''pk_live_'' (generateApiKey ''My PrOd key'' ''0.4fzyo82mvyr'' ''0.i'')
   \<and> \<not> contains_prod_any_casing ''staging''
   \<and> prefix ''pk_dev_'' (generateApiKey ''staging'' ''0.4fzyo82mvyr'' ''0.i'')"
proof -
  have a: "contains_prod_any_casing ''My PrOd key''"
    by simp
  have b: "\<not> contains_prod_any_casing ''staging''"
    by simp
  show ?thesis
    using a b prefix_follows_prod [of "''My PrOd key''" "''0.4fzyo82mvyr''" "''0.i''"]
      prefix_follows_prod [of "''staging''" "''0.4fzyo82mvyr''" "''0.i''"]
    by simp
qed

text \<open>
  Claim C8. The random part of a key is two pieces, each at most 16 characters cut from
  a rendering of a number in base 36, so it is never longer than 32 characters and is
  shorter whenever a rendering has fewer than 16 digits after the point. When
  \<open>Math.random()\<close> gives 0.5 twice, each rendering is \<open>0.i\<close> and the random part is
  the two characters \<open>ii\<close>; the claim asks for at least 32.
\<close>

theorem random_suffix_of_two_characters:
  "generateApiKey ''staging'' ''0.i'' ''0.i'' = ''pk_dev_ii''
   \<and> randomKey ''0.i'' ''0.i'' = ''ii''
   \<and> length (randomKey ''0.i'' ''0.i'') < 32"
  by code_simp

end
